theory Spec2Isabelle
  imports Main
begin

section \<open>TextAI Studio: the helper classes of \<^verbatim>\<open>textai_studio_app.py\<close>\<close>

text \<open>
  The four helper classes (\<^verbatim>\<open>UserManager\<close>, \<^verbatim>\<open>HistoryManager\<close>, \<^verbatim>\<open>APIKeyManager\<close>,
  \<^verbatim>\<open>RateLimiter\<close>) are embedded as functions on explicit states. Every method takes the
  object's state (its in-memory dictionary and the JSON file behind it) and returns its
  result together with the state afterwards.

  Conventions.
  \<^item> A naive \<^verbatim>\<open>datetime\<close> is an \<open>int\<close>: the number of microseconds on the naive time
    line. \<^verbatim>\<open>isoformat\<close> and \<^verbatim>\<open>fromisoformat\<close> are inverse to each other on naive
    datetimes, so a stored ISO string is represented by the datetime it denotes; the one
    place where the written form matters, \<^verbatim>\<open>pd.to_datetime\<close>, looks at the microseconds.
  \<^item> \<^verbatim>\<open>datetime.now()\<close>, \<^verbatim>\<open>bcrypt.gensalt()\<close> and \<^verbatim>\<open>secrets.token_bytes(32)\<close> read the
    environment; the value read is an argument of the method.
  \<^item> A JSON file is \<open>None\<close> while it does not exist and \<open>Some\<close> of its content afterwards.
  \<^item> A Python \<^verbatim>\<open>dict\<close> is a map; only membership and lookup are used by the methods.
  \<^item> The platform is POSIX with a case-sensitive file system, CPython 3.10 to 3.13 and
    pandas 2.
\<close>

subsection \<open>Time and text\<close>

type_synonym datetime = int

definition timedelta_hours :: "int \<Rightarrow> int" where
  "timedelta_hours h = h * 3600000000"

definition timedelta_days :: "int \<Rightarrow> int" where
  "timedelta_days d = d * 86400000000"

text \<open>\<^verbatim>\<open>.dt.date\<close>: the calendar day of a naive timestamp.\<close>

definition date_of :: "datetime \<Rightarrow> int" where
  "date_of ts = ts div 86400000000"

text \<open>\<^verbatim>\<open>str\<close> of a Python integer, as the f-strings print it.\<close>

definition digit_char :: "nat \<Rightarrow> char" where
  "digit_char d = char_of (48 + d)"

function str_nat :: "nat \<Rightarrow> string" where
  "str_nat n = (if n < 10 then [digit_char n] else str_nat (n div 10) @ [digit_char (n mod 10)])"
  by pat_completeness auto
termination
  by (relation "measure id") auto

declare str_nat.simps [simp del]

definition str_int :: "int \<Rightarrow> string" where
  "str_int i = (if i < 0 then CHR ''-'' # str_nat (nat (- i)) else str_nat (nat i))"

subsection \<open>Rate limiting configuration\<close>

definition RATE_LIMITS :: "(string \<times> int) list" where
  "RATE_LIMITS = [(''guest'', 10), (''user'', 100), (''pro'', 1000)]"

text \<open>\<^verbatim>\<open>RATE_LIMITS.get(tier, 10)\<close>\<close>

definition tier_limit :: "string \<Rightarrow> int" where
  "tier_limit tier = (case map_of RATE_LIMITS tier of Some l \<Rightarrow> l | None \<Rightarrow> 10)"

subsection \<open>RateLimiter\<close>

record rate_limiter =
  limits :: "string \<rightharpoonup> datetime list"
  limits_file :: "(string \<rightharpoonup> datetime list) option"

text \<open>\<^verbatim>\<open>__init__\<close> with \<^verbatim>\<open>_load_limits\<close>: the file's content, or an empty dictionary.\<close>

definition RateLimiter :: "(string \<rightharpoonup> datetime list) option \<Rightarrow> rate_limiter" where
  "RateLimiter file =
     \<lparr>limits = (case file of Some m \<Rightarrow> m | None \<Rightarrow> Map.empty), limits_file = file\<rparr>"

definition save_limits :: "rate_limiter \<Rightarrow> rate_limiter" where
  "save_limits rl = rl\<lparr>limits_file := Some (limits rl)\<rparr>"

text \<open>The user's list after \<^verbatim>\<open>if username not in self.limits: self.limits[username] = []\<close>.\<close>

definition window :: "rate_limiter \<Rightarrow> string \<Rightarrow> datetime list" where
  "window rl username = (case limits rl username of Some w \<Rightarrow> w | None \<Rightarrow> [])"

definition exceeded_msg :: "int \<Rightarrow> string" where
  "exceeded_msg limit = ''Rate limit exceeded. Limit: '' @ str_int limit @ ''/hour''"

definition remaining_msg :: "int \<Rightarrow> int \<Rightarrow> string" where
  "remaining_msg remaining limit = ''Remaining: '' @ str_int remaining @ ''/'' @ str_int limit"

definition check_limit ::
  "rate_limiter \<Rightarrow> string \<Rightarrow> string \<Rightarrow> datetime \<Rightarrow> (bool \<times> string) \<times> rate_limiter" where
  "check_limit rl username tier now =
     (let hour_ago = now - timedelta_hours 1;
          pruned = filter (\<lambda>ts. ts > hour_ago) (window rl username);
          rl1 = rl\<lparr>limits := (limits rl)(username \<mapsto> pruned)\<rparr>;
          limit = tier_limit tier
      in if int (length pruned) \<ge> limit then ((False, exceeded_msg limit), rl1)
         else
           (let appended = pruned @ [now];
                rl2 = save_limits (rl1\<lparr>limits := (limits rl1)(username \<mapsto> appended)\<rparr>)
            in ((True, remaining_msg (limit - int (length appended)) limit), rl2)))"

text \<open>A sequence of admission checks on one \<^verbatim>\<open>RateLimiter\<close> object, each with its own
  username, tier and clock reading; the outcomes are collected in call order.\<close>

fun check_limits ::
  "rate_limiter \<Rightarrow> (string \<times> string \<times> datetime) list \<Rightarrow> (bool \<times> string) list \<times> rate_limiter" where
  "check_limits rl [] = ([], rl)"
| "check_limits rl ((username, tier, now) # calls) =
     (let (r, rl1) = check_limit rl username tier now;
          (rs, rl2) = check_limits rl1 calls
      in (r # rs, rl2))"

subsection \<open>HistoryManager\<close>

text \<open>
  Python's slice \<^verbatim>\<open>xs[start:]\<close>: a negative start counts from the end and is clamped at
  the front of the list. \<^verbatim>\<open>xs[:n]\<close> with a literal \<open>n \<ge> 0\<close> is \<^const>\<open>take\<close>.
\<close>

definition slice_from :: "int \<Rightarrow> 'a list \<Rightarrow> 'a list" where
  "slice_from start xs =
     (if start < 0 then drop (nat (max 0 (int (length xs) + start))) xs else drop (nat start) xs)"

text \<open>
  A query and a result are cut by position, and Python counts code points there: they are
  lists of code points. Usernames and tool names are only compared, joined and split at
  \<^verbatim>\<open>/\<close>, which UTF-8 preserves: they are byte strings.
\<close>

type_synonym unicode = "nat list"

definition ascii :: "string \<Rightarrow> unicode" where
  "ascii s = map of_char s"

record history_entry =
  timestamp :: datetime
  tool :: string
  query :: unicode
  result :: unicode

text \<open>
  The history directory \<^verbatim>\<open>HISTORY_DIR\<close>: the content of every file in it, by file name. The
  program creates the directory empty and puts nothing but history files into it, so it
  holds regular files and no subdirectory. \<^verbatim>\<open>HistoryManager\<close> keeps no state of its own.
\<close>

type_synonym history_dir = "string \<rightharpoonup> history_entry list"

datatype error = FileNotFoundError | NotADirectoryError | OSError_ENAMETOOLONG | ValueError

text \<open>
  What a method call comes to: it returns a value, it raises, or it reads or writes a file
  that lies outside \<^verbatim>\<open>HISTORY_DIR\<close>, which is beyond this model (\<open>Outside\<close>).
\<close>

datatype 'a outcome = Returned 'a | Raised error | Outside

text \<open>
  The path \<^verbatim>\<open>HISTORY_DIR / f"{username}.json"\<close> on a POSIX system without symbolic links.
  \<^verbatim>\<open>pathlib\<close> splits the name at \<^verbatim>\<open>/\<close> and drops empty and \<^verbatim>\<open>.\<close> components; a name that
  starts with \<^verbatim>\<open>/\<close> replaces the directory. A path with a NUL byte is refused before any
  system call. Otherwise the first component decides: \<^verbatim>\<open>..\<close> leaves the directory, a
  component longer than \<^verbatim>\<open>NAME_MAX\<close> bytes is refused by the file system, a single
  component is a file of the directory, and a component followed by others would have to
  be a subdirectory, which does not exist.
\<close>

definition NAME_MAX :: nat where
  "NAME_MAX = 255"

fun split_path :: "string \<Rightarrow> string list" where
  "split_path [] = [[]]"
| "split_path (c # cs) =
     (if c = CHR ''/'' then [] # split_path cs
      else (case split_path cs of p # ps \<Rightarrow> (c # p) # ps | [] \<Rightarrow> [[c]]))"

definition path_parts :: "string \<Rightarrow> string list" where
  "path_parts name = filter (\<lambda>p. p \<noteq> [] \<and> p \<noteq> ''.'') (split_path name)"

datatype location = In_History_Dir string | Unreachable error | Null_Byte | Elsewhere

definition history_file :: "history_dir \<Rightarrow> string \<Rightarrow> location" where
  "history_file files username =
     (let name = username @ ''.json''
      in if CHR 0x00 \<in> set name then Null_Byte
         else if take 1 name = ''/'' then Elsewhere
         else
           (case path_parts name of
              [] \<Rightarrow> Elsewhere
            | c # rest \<Rightarrow>
                if c = ''..'' then Elsewhere
                else if NAME_MAX < length c then Unreachable OSError_ENAMETOOLONG
                else if rest = [] then In_History_Dir c
                else if files c \<noteq> None then Unreachable NotADirectoryError
                else Unreachable FileNotFoundError))"

text \<open>
  \<^verbatim>\<open>Path.exists\<close> (CPython 3.10 to 3.13): a missing path, a file in the place of a
  directory and a NUL byte give \<^verbatim>\<open>False\<close>; any other failure of \<^verbatim>\<open>stat\<close> is raised.
\<close>

definition path_exists :: "history_dir \<Rightarrow> location \<Rightarrow> bool outcome" where
  "path_exists files loc =
     (case loc of
        In_History_Dir f \<Rightarrow> Returned (files f \<noteq> None)
      | Unreachable e \<Rightarrow>
          if e = FileNotFoundError \<or> e = NotADirectoryError then Returned False else Raised e
      | Null_Byte \<Rightarrow> Returned False
      | Elsewhere \<Rightarrow> Outside)"

text \<open>\<^verbatim>\<open>json.load\<close> from a file that exists, in \<^verbatim>\<open>HISTORY_DIR\<close>.\<close>

definition load_history :: "history_dir \<Rightarrow> string \<Rightarrow> history_entry list" where
  "load_history files f = (case files f of Some history \<Rightarrow> history | None \<Rightarrow> [])"

text \<open>\<^verbatim>\<open>open(history_file, 'w')\<close> with \<^verbatim>\<open>json.dump\<close>.\<close>

definition dump_history :: "history_dir \<Rightarrow> location \<Rightarrow> history_entry list \<Rightarrow> history_dir outcome" where
  "dump_history files loc history =
     (case loc of
        In_History_Dir f \<Rightarrow> Returned (files(f \<mapsto> history))
      | Unreachable e \<Rightarrow> Raised e
      | Null_Byte \<Rightarrow> Raised ValueError
      | Elsewhere \<Rightarrow> Outside)"

text \<open>The argument \<open>result_text\<close> is \<^verbatim>\<open>str(result)\<close>, the text of the tool's result.\<close>

definition new_entry :: "string \<Rightarrow> unicode \<Rightarrow> unicode \<Rightarrow> datetime \<Rightarrow> history_entry" where
  "new_entry tool_name query_text result_text now =
     \<lparr>timestamp = now, tool = tool_name, query = take 200 query_text,
      result = take 500 result_text\<rparr>"

definition add_entry ::
  "history_dir \<Rightarrow> string \<Rightarrow> string \<Rightarrow> unicode \<Rightarrow> unicode \<Rightarrow> datetime \<Rightarrow> history_dir outcome" where
  "add_entry files username tool_name query_text result_text now =
     (let loc = history_file files username
      in case path_exists files loc of
           Raised e \<Rightarrow> Raised e
         | Outside \<Rightarrow> Outside
         | Returned found \<Rightarrow>
             (let history =
                    (if found then (case loc of In_History_Dir f \<Rightarrow> load_history files f | _ \<Rightarrow> [])
                     else []);
                  entry = new_entry tool_name query_text result_text now;
                  history = history @ [entry];
                  history = slice_from (- 100) history
              in dump_history files loc history))"

text \<open>A read returns its outcome together with the directory, which it does not write.\<close>

definition get_history ::
  "history_dir \<Rightarrow> string \<Rightarrow> int \<Rightarrow> history_entry list outcome \<times> history_dir" where
  "get_history files username limit =
     (let loc = history_file files username
      in case path_exists files loc of
           Raised e \<Rightarrow> (Raised e, files)
         | Outside \<Rightarrow> (Outside, files)
         | Returned found \<Rightarrow>
             if \<not> found then (Returned [], files)
             else
               (let history = (case loc of In_History_Dir f \<Rightarrow> load_history files f | _ \<Rightarrow> [])
                in (Returned (slice_from (- limit) history), files)))"

text \<open>
  \<^verbatim>\<open>pd.to_datetime\<close> on the column of ISO strings (pandas 2): the format is taken from the
  first string and every string has to match it. \<^verbatim>\<open>isoformat\<close> writes the six digits of
  the microseconds unless they are zero, so a string has either the format with a fraction
  or the one without; a column that mixes them raises \<^verbatim>\<open>ValueError\<close>.
\<close>

definition has_fraction :: "datetime \<Rightarrow> bool" where
  "has_fraction ts = (ts mod 1000000 \<noteq> 0)"

fun to_datetime :: "datetime list \<Rightarrow> error + datetime list" where
  "to_datetime [] = Inr []"
| "to_datetime (ts # rest) =
     (if list_all (\<lambda>t. has_fraction t = has_fraction ts) rest then Inr (ts # rest)
      else Inl ValueError)"

text \<open>\<^verbatim>\<open>Series.value_counts().to_dict()\<close> and \<^verbatim>\<open>groupby(...).size().to_dict()\<close>: every value
  that occurs, with the number of its occurrences.\<close>

definition value_counts :: "'a list \<Rightarrow> ('a \<rightharpoonup> nat)" where
  "value_counts xs = (\<lambda>x. if x \<in> set xs then Some (count_list xs x) else None)"

record analytics =
  total_queries :: nat
  tools_used :: "string \<rightharpoonup> nat"
  queries_by_date :: "int \<rightharpoonup> nat"
  last_7_days :: nat
  last_30_days :: nat

text \<open>\<^verbatim>\<open>get_analytics\<close> reads the clock twice, once for each trailing count.\<close>

definition get_analytics ::
  "history_dir \<Rightarrow> string \<Rightarrow> datetime \<Rightarrow> datetime \<Rightarrow> analytics option outcome \<times> history_dir" where
  "get_analytics files username now1 now2 =
     (let (read, files1) = get_history files username 1000
      in case read of
           Raised e \<Rightarrow> (Raised e, files1)
         | Outside \<Rightarrow> (Outside, files1)
         | Returned history \<Rightarrow>
             if history = [] then (Returned None, files1)
             else
               (case to_datetime (map timestamp history) of
                  Inl e \<Rightarrow> (Raised e, files1)
                | Inr stamps \<Rightarrow>
                    (Returned (Some
                       \<lparr>total_queries = length history,
                        tools_used = value_counts (map tool history),
                        queries_by_date = value_counts (map date_of stamps),
                        last_7_days = length (filter (\<lambda>t. t > now1 - timedelta_days 7) stamps),
                        last_30_days = length (filter (\<lambda>t. t > now2 - timedelta_days 30) stamps)\<rparr>),
                     files1)))"

text \<open>A sequence of \<^verbatim>\<open>add_entry\<close> calls, each with its username, tool, query, result text and
  clock reading; it ends at the first call that does not return.\<close>

fun add_entries ::
  "history_dir \<Rightarrow> (string \<times> string \<times> unicode \<times> unicode \<times> datetime) list \<Rightarrow> history_dir outcome" where
  "add_entries files [] = Returned files"
| "add_entries files ((username, tool_name, query_text, result_text, now) # calls) =
     (case add_entry files username tool_name query_text result_text now of
        Returned files1 \<Rightarrow> add_entries files1 calls
      | Raised e \<Rightarrow> Raised e
      | Outside \<Rightarrow> Outside)"

text \<open>The entries that a call sequence appends for one user, in call order.\<close>

definition appended_for ::
  "string \<Rightarrow> (string \<times> string \<times> unicode \<times> unicode \<times> datetime) list \<Rightarrow> history_entry list" where
  "appended_for username calls =
     map (\<lambda>(u, tool_name, query_text, result_text, now). new_entry tool_name query_text result_text now)
       (filter (\<lambda>c. fst c = username) calls)"

text \<open>
  A username whose file name is one path component of at most \<^verbatim>\<open>NAME_MAX\<close> bytes: no
  \<^verbatim>\<open>/\<close> and no NUL byte in it.
\<close>

definition plain_username :: "string \<Rightarrow> bool" where
  "plain_username username \<longleftrightarrow>
     CHR ''/'' \<notin> set username \<and> CHR 0x00 \<notin> set username \<and> length username + 5 \<le> NAME_MAX"

subsection \<open>UserManager\<close>

text \<open>
  A user's dictionary; the fields are the keys \<^verbatim>\<open>password\<close>, \<^verbatim>\<open>email\<close>, \<^verbatim>\<open>tier\<close>,
  \<^verbatim>\<open>created_at\<close> and \<^verbatim>\<open>api_key\<close>.
\<close>

record user =
  user_password :: string
  user_email :: string
  user_tier :: string
  user_created_at :: datetime
  user_api_key :: "string option"

record user_manager =
  users :: "string \<rightharpoonup> user"
  users_file :: "(string \<rightharpoonup> user) option"

definition UserManager :: "(string \<rightharpoonup> user) option \<Rightarrow> user_manager" where
  "UserManager file =
     \<lparr>users = (case file of Some m \<Rightarrow> m | None \<Rightarrow> Map.empty), users_file = file\<rparr>"

definition save_users :: "user_manager \<Rightarrow> user_manager" where
  "save_users um = um\<lparr>users_file := Some (users um)\<rparr>"

text \<open>
  \<^verbatim>\<open>bcrypt\<close> is a library outside the repository: \<open>hashpw\<close> and \<open>checkpw\<close> are arguments of
  the two methods that call them, and \<open>salt\<close> is the value of \<^verbatim>\<open>bcrypt.gensalt()\<close>. Text is
  identified with its UTF-8 bytes, so \<^verbatim>\<open>encode\<close> and \<^verbatim>\<open>decode\<close> do not appear.
\<close>

definition register_user ::
  "(string \<Rightarrow> string \<Rightarrow> string) \<Rightarrow> user_manager \<Rightarrow> string \<Rightarrow> string \<Rightarrow> string \<Rightarrow> string \<Rightarrow>
     datetime \<Rightarrow> (bool \<times> string) \<times> user_manager" where
  "register_user hashpw um username passwd email salt now =
     (if username \<in> dom (users um) then ((False, ''Username already exists''), um)
      else
        (let hashed = hashpw passwd salt;
             um1 = um\<lparr>users := (users um)(username \<mapsto>
                      \<lparr>user_password = hashed, user_email = email, user_tier = ''user'',
                       user_created_at = now, user_api_key = None\<rparr>)\<rparr>
         in ((True, ''Registration successful''), save_users um1)))"

definition authenticate_user ::
  "(string \<Rightarrow> string \<Rightarrow> bool) \<Rightarrow> user_manager \<Rightarrow> string \<Rightarrow> string \<Rightarrow> bool \<times> user_manager" where
  "authenticate_user checkpw um username passwd =
     (case users um username of
        None \<Rightarrow> (False, um)
      | Some u \<Rightarrow> (let stored_hash = user_password u in (checkpw passwd stored_hash, um)))"

subsection \<open>APIKeyManager\<close>

record key_record =
  key_username :: string
  key_created_at :: datetime

record api_key_manager =
  keys :: "string \<rightharpoonup> key_record"
  api_keys_file :: "(string \<rightharpoonup> key_record) option"

definition APIKeyManager :: "(string \<rightharpoonup> key_record) option \<Rightarrow> api_key_manager" where
  "APIKeyManager file =
     \<lparr>keys = (case file of Some m \<Rightarrow> m | None \<Rightarrow> Map.empty), api_keys_file = file\<rparr>"

definition save_keys :: "api_key_manager \<Rightarrow> api_key_manager" where
  "save_keys akm = akm\<lparr>api_keys_file := Some (keys akm)\<rparr>"

text \<open>
  \<^verbatim>\<open>hexdigest\<close>: two lower-case hexadecimal digits for every byte of a digest. The digest
  function itself (\<^verbatim>\<open>hashlib.sha256\<close>, from bytes to the digest's bytes) and
  \<^verbatim>\<open>base64.b64encode\<close> are library functions and arguments of the methods; a byte is a
  \<open>char\<close>.
\<close>

definition hex_digit :: "nat \<Rightarrow> char" where
  "hex_digit n = ''0123456789abcdef'' ! (n mod 16)"

definition hexdigest :: "string \<Rightarrow> string" where
  "hexdigest digest =
     concat (map (\<lambda>c. [hex_digit (of_char c div 16), hex_digit (of_char c mod 16)]) digest)"

definition key_hash_of :: "(string \<Rightarrow> string) \<Rightarrow> string \<Rightarrow> string" where
  "key_hash_of sha256 api_key = hexdigest (sha256 api_key)"

definition generate_key ::
  "(string \<Rightarrow> string) \<Rightarrow> (string \<Rightarrow> string) \<Rightarrow> api_key_manager \<Rightarrow> string \<Rightarrow> string \<Rightarrow> datetime \<Rightarrow>
     string \<times> api_key_manager" where
  "generate_key sha256 b64encode akm username random_bytes now =
     (let api_key = ''sk_'' @ b64encode random_bytes;
          key_hash = key_hash_of sha256 api_key;
          akm1 = akm\<lparr>keys := (keys akm)(key_hash \<mapsto>
                    \<lparr>key_username = username, key_created_at = now\<rparr>)\<rparr>
      in (api_key, save_keys akm1))"

definition validate_key ::
  "(string \<Rightarrow> string) \<Rightarrow> api_key_manager \<Rightarrow> string \<Rightarrow> bool \<times> api_key_manager" where
  "validate_key sha256 akm api_key =
     (let key_hash = key_hash_of sha256 api_key in (key_hash \<in> dom (keys akm), akm))"

definition get_user_by_key ::
  "(string \<Rightarrow> string) \<Rightarrow> api_key_manager \<Rightarrow> string \<Rightarrow> string option \<times> api_key_manager" where
  "get_user_by_key sha256 akm api_key =
     (let key_hash = key_hash_of sha256 api_key
      in case keys akm key_hash of
           Some r \<Rightarrow> (Some (key_username r), akm)
         | None \<Rightarrow> (None, akm))"

text \<open>A sequence of \<^verbatim>\<open>generate_key\<close> calls, each with its username, random bytes and clock
  reading; the raw keys handed out are collected in call order.\<close>

fun generate_keys ::
  "(string \<Rightarrow> string) \<Rightarrow> (string \<Rightarrow> string) \<Rightarrow> api_key_manager \<Rightarrow>
     (string \<times> string \<times> datetime) list \<Rightarrow> string list \<times> api_key_manager" where
  "generate_keys sha256 b64encode akm [] = ([], akm)"
| "generate_keys sha256 b64encode akm ((username, random_bytes, now) # calls) =
     (let (api_key, akm1) = generate_key sha256 b64encode akm username random_bytes now;
          (api_keys, akm2) = generate_keys sha256 b64encode akm1 calls
      in (api_key # api_keys, akm2))"

subsection \<open>Facts about the history\<close>

lemma slice_from_neg:
  "0 < limit \<Longrightarrow> slice_from (- limit) xs = drop (length xs - nat limit) xs"
  by (auto simp: slice_from_def max_def intro: arg_cong [where f = "\<lambda>k. drop k xs"])

lemma slice_from_100: "slice_from (- 100) xs = drop (length xs - 100) xs"
  using slice_from_neg [of 100 xs] by simp

lemma slice_from_Nil: "slice_from k [] = []"
  by (simp add: slice_from_def)

lemma split_path_no_slash: "CHR ''/'' \<notin> set s \<Longrightarrow> split_path s = [s]"
  by (induction s) auto

lemma history_file_plain:
  assumes "plain_username u"
  shows "history_file files u = In_History_Dir (u @ ''.json'')"
proof -
  let ?name = "u @ ''.json''"
  from assms have slash: "CHR ''/'' \<notin> set ?name" and nul: "CHR 0x00 \<notin> set ?name"
    and len: "length ?name \<le> NAME_MAX"
    by (simp_all add: plain_username_def)
  have parts: "path_parts ?name = [?name]"
    using split_path_no_slash [OF slash] by (auto simp: path_parts_def)
  have abs: "take 1 ?name \<noteq> ''/''"
    using slash by (cases u) auto
  have dots: "?name \<noteq> ''..''"
    by (auto simp: append_eq_Cons_conv)
  show ?thesis
    unfolding history_file_def Let_def parts
    using nul abs dots len by (simp del: set_append append.simps)
qed

lemma add_entry_plain:
  assumes "plain_username u"
  shows "add_entry files u tn q r now =
     Returned (files(u @ ''.json'' \<mapsto>
       slice_from (- 100) (load_history files (u @ ''.json'') @ [new_entry tn q r now])))"
  by (simp add: add_entry_def history_file_plain [OF assms] path_exists_def dump_history_def
      load_history_def Let_def)

lemma get_history_plain:
  assumes "plain_username u"
  shows "fst (get_history files u limit) =
     Returned (slice_from (- limit) (load_history files (u @ ''.json'')))"
  by (simp add: get_history_def history_file_plain [OF assms] path_exists_def load_history_def
      slice_from_Nil Let_def)

lemma get_history_reads_only: "snd (get_history files username limit) = files"
  by (simp add: get_history_def Let_def split: outcome.splits)

lemma get_history_positive:
  assumes "plain_username u" and "0 < limit"
  shows "fst (get_history files u limit) =
     Returned (drop (length (load_history files (u @ ''.json'')) - nat limit)
                 (load_history files (u @ ''.json'')))"
  by (simp add: get_history_plain [OF assms(1)] slice_from_neg [OF assms(2)])

lemma add_entries_append:
  "add_entries files (xs @ ys) =
     (case add_entries files xs of
        Returned files1 \<Rightarrow> add_entries files1 ys
      | Raised e \<Rightarrow> Raised e
      | Outside \<Rightarrow> Outside)"
  by (induction files xs rule: add_entries.induct) (simp_all split: outcome.splits)

lemma appended_for_snoc:
  "appended_for username (calls @ [(u, tn, q, r, now)]) =
     (if u = username then appended_for username calls @ [new_entry tn q r now]
      else appended_for username calls)"
  by (simp add: appended_for_def)

lemma drop_last_snoc:
  assumes "0 < n"
  shows "drop (length (drop (length xs - n) xs @ [e]) - n) (drop (length xs - n) xs @ [e]) =
         drop (length (xs @ [e]) - n) (xs @ [e])"
proof (cases "length xs < n")
  case True
  then show ?thesis by simp
next
  case False
  then have len: "length (drop (length xs - n) xs) = n" by simp
  have "drop (length (drop (length xs - n) xs @ [e]) - n) (drop (length xs - n) xs @ [e]) =
        drop 1 (drop (length xs - n) xs @ [e])"
    using assms by (simp only: length_append len) simp
  also have "\<dots> = drop (Suc (length xs - n)) xs @ [e]"
    using assms len by (simp add: drop_Suc [symmetric] del: length_drop)
  also have "\<dots> = drop (length (xs @ [e]) - n) (xs @ [e])"
    using False assms by (simp add: Suc_diff_le)
  finally show ?thesis .
qed

lemma add_entries_fifo_plain:
  assumes "plain_username username"
    and "\<forall>c \<in> set calls. plain_username (fst c)"
    and "load_history files (username @ ''.json'') = []"
  shows "\<exists>files1. add_entries files calls = Returned files1 \<and>
           load_history files1 (username @ ''.json'') =
             drop (length (appended_for username calls) - 100) (appended_for username calls)"
  using assms(2)
proof (induction calls rule: rev_induct)
  case Nil
  with assms(3) show ?case by (simp add: appended_for_def)
next
  case (snoc c calls)
  obtain u tn q r now where c: "c = (u, tn, q, r, now)" by (cases c)
  from snoc.prems have pu: "plain_username u" and rest: "\<forall>c \<in> set calls. plain_username (fst c)"
    by (simp_all add: c)
  from snoc.IH [OF rest] obtain files1 where
    run: "add_entries files calls = Returned files1" and
    stored: "load_history files1 (username @ ''.json'') =
      drop (length (appended_for username calls) - 100) (appended_for username calls)"
    by blast
  let ?files2 = "files1(u @ ''.json'' \<mapsto>
       slice_from (- 100) (load_history files1 (u @ ''.json'') @ [new_entry tn q r now]))"
  have run2: "add_entries files (calls @ [c]) = Returned ?files2"
    by (simp add: add_entries_append run c add_entry_plain [OF pu])
  show ?case
  proof (cases "u = username")
    case True
    have "load_history ?files2 (username @ ''.json'') =
          drop (length (load_history files1 (username @ ''.json'') @ [new_entry tn q r now]) - 100)
            (load_history files1 (username @ ''.json'') @ [new_entry tn q r now])"
      by (simp add: True load_history_def slice_from_100 del: length_append length_drop drop_append)
    also have "\<dots> = drop (length (appended_for username calls @ [new_entry tn q r now]) - 100)
            (appended_for username calls @ [new_entry tn q r now])"
      by (simp only: stored) (rule drop_last_snoc, simp)
    finally have "load_history ?files2 (username @ ''.json'') =
        drop (length (appended_for username (calls @ [c])) - 100) (appended_for username (calls @ [c]))"
      by (simp only: c True appended_for_snoc simp_thms if_True)
    with run2 show ?thesis by blast
  next
    case False
    then have "load_history ?files2 (username @ ''.json'') = load_history files1 (username @ ''.json'')"
      by (simp add: load_history_def)
    with False stored have "load_history ?files2 (username @ ''.json'') =
        drop (length (appended_for username (calls @ [c])) - 100) (appended_for username (calls @ [c]))"
      by (simp add: c appended_for_snoc)
    with run2 show ?thesis by blast
  qed
qed

lemma add_entries_fifo_plain_101:
  assumes "plain_username username"
    and "\<forall>c \<in> set calls. plain_username (fst c)"
    and "load_history files (username @ ''.json'') = []"
    and "length (appended_for username calls) = 101"
  shows "\<exists>files1. add_entries files calls = Returned files1 \<and>
           length (load_history files1 (username @ ''.json'')) = 100 \<and>
           load_history files1 (username @ ''.json'') = tl (appended_for username calls)"
proof -
  from add_entries_fifo_plain [OF assms(1-3)] obtain files1 where
    run: "add_entries files calls = Returned files1" and
    stored: "load_history files1 (username @ ''.json'') =
      drop (length (appended_for username calls) - 100) (appended_for username calls)"
    by blast
  from stored assms(4) have "length (load_history files1 (username @ ''.json'')) = 100"
    by simp
  moreover from stored assms(4) have
    "load_history files1 (username @ ''.json'') = tl (appended_for username calls)"
    by (simp add: drop_Suc)
  ultimately show ?thesis using run by blast
qed

lemma add_entries_fifo_plain_example:
  "\<exists>files1.
     add_entries Map.empty
       (map (\<lambda>i. (''alice'', ''sentiment_analysis'', ascii ''query'', ascii ''result'', int i)) [0..<101]) =
       Returned files1 \<and>
     length (load_history files1 ''alice.json'') = 100 \<and>
     load_history files1 ''alice.json'' =
       tl (appended_for ''alice''
         (map (\<lambda>i. (''alice'', ''sentiment_analysis'', ascii ''query'', ascii ''result'', int i)) [0..<101]))"
proof -
  let ?calls = "map (\<lambda>i. (''alice'', ''sentiment_analysis'', ascii ''query'', ascii ''result'', int i)) [0..<101]"
  have a1: "plain_username ''alice''"
    by (simp add: plain_username_def NAME_MAX_def)
  have a2: "\<forall>c \<in> set ?calls. plain_username (fst c)"
    using a1 by simp
  have a3: "load_history Map.empty (''alice'' @ ''.json'') = []"
    by (simp add: load_history_def)
  have a4: "length (appended_for ''alice'' ?calls) = 101"
    by (simp add: appended_for_def filter_map comp_def)
  from add_entries_fifo_plain_101 [OF a1 a2 a3 a4] show ?thesis by simp
qed

text \<open>
  Claim C4. The last 100 appended entries are kept, in call order, and the first of 101 is
  the one dropped: this holds for usernames whose file name is a single path component
  (\<open>add_entries_fifo_plain\<close>, \<open>add_entries_fifo_plain_101\<close>). It does not hold for every
  username, because the file is addressed by the path
  \<^verbatim>\<open>HISTORY_DIR / f"{username}.json"\<close>. For the username \<^verbatim>\<open>a/b\<close> the first \<^verbatim>\<open>add_entry\<close>
  raises \<^verbatim>\<open>FileNotFoundError\<close>, so 101 appends store nothing and the read returns the empty
  list; and the usernames \<^verbatim>\<open>x\<close> and \<^verbatim>\<open>./x\<close> name one file, so an entry appended for one
  of them is stored in the history of the other.
\<close>

theorem add_entry_username_as_path:
  "add_entries Map.empty
     (replicate 101 (''a/b'', ''sentiment_analysis'', ascii ''good'', ascii ''POSITIVE'', 1)) =
     Raised FileNotFoundError \<and>
   fst (get_history Map.empty ''a/b'' 100) = Returned [] \<and>
   add_entries Map.empty
     [(''x'', ''sentiment_analysis'', ascii ''good'', ascii ''POSITIVE'', 1),
      (''./x'', ''text_summarization'', ascii ''long'', ascii ''short'', 2)] =
     Returned [''x.json'' \<mapsto>
       [new_entry ''sentiment_analysis'' (ascii ''good'') (ascii ''POSITIVE'') 1,
        new_entry ''text_summarization'' (ascii ''long'') (ascii ''short'') 2]]"
proof (intro conjI)
  have "add_entry Map.empty ''a/b'' ''sentiment_analysis'' (ascii ''good'') (ascii ''POSITIVE'') 1 =
        Raised FileNotFoundError"
    by (simp add: add_entry_def history_file_def path_parts_def path_exists_def dump_history_def
        NAME_MAX_def Let_def)
  then show "add_entries Map.empty
     (replicate 101 (''a/b'', ''sentiment_analysis'', ascii ''good'', ascii ''POSITIVE'', 1)) =
     Raised FileNotFoundError"
    by (simp add: numeral_eq_Suc)
next
  show "fst (get_history Map.empty ''a/b'' 100) = Returned []"
    by (simp add: get_history_def history_file_def path_parts_def path_exists_def NAME_MAX_def Let_def)
next
  show "add_entries Map.empty
     [(''x'', ''sentiment_analysis'', ascii ''good'', ascii ''POSITIVE'', 1),
      (''./x'', ''text_summarization'', ascii ''long'', ascii ''short'', 2)] =
     Returned [''x.json'' \<mapsto>
       [new_entry ''sentiment_analysis'' (ascii ''good'') (ascii ''POSITIVE'') 1,
        new_entry ''text_summarization'' (ascii ''long'') (ascii ''short'') 2]]"
    by (simp add: add_entry_def history_file_def path_parts_def path_exists_def dump_history_def
        load_history_def slice_from_def NAME_MAX_def Let_def)
qed

lemma fst_get_analytics:
  "fst (get_analytics files username now1 now2) =
     (case fst (get_history files username 1000) of
        Raised e \<Rightarrow> Raised e
      | Outside \<Rightarrow> Outside
      | Returned history \<Rightarrow>
          if history = [] then Returned None
          else
            (case to_datetime (map timestamp history) of
               Inl e \<Rightarrow> Raised e
             | Inr stamps \<Rightarrow>
                 Returned (Some
                   \<lparr>total_queries = length history,
                    tools_used = value_counts (map tool history),
                    queries_by_date = value_counts (map date_of stamps),
                    last_7_days = length (filter (\<lambda>t. t > now1 - timedelta_days 7) stamps),
                    last_30_days = length (filter (\<lambda>t. t > now2 - timedelta_days 30) stamps)\<rparr>)))"
  by (simp add: get_analytics_def Let_def split_beta split: outcome.splits sum.splits)

lemma get_analytics_None_iff:
  "fst (get_analytics files username now1 now2) = Returned None \<longleftrightarrow>
   fst (get_history files username 1000) = Returned []"
  by (auto simp: fst_get_analytics split: outcome.splits sum.splits)

lemma slice_from_empty_iff: "0 < limit \<Longrightarrow> slice_from (- limit) xs = [] \<longleftrightarrow> xs = []"
  by (cases xs) (auto simp: slice_from_neg)

lemma get_analytics_None_iff_plain:
  assumes "plain_username username"
  shows "fst (get_analytics files username now1 now2) = Returned None \<longleftrightarrow>
         load_history files (username @ ''.json'') = []"
  by (simp add: get_analytics_None_iff get_history_plain [OF assms] slice_from_empty_iff)

lemma to_datetime_uniform:
  "(\<forall>t \<in> set ts. has_fraction t) \<or> (\<forall>t \<in> set ts. \<not> has_fraction t) \<Longrightarrow> to_datetime ts = Inr ts"
  by (cases ts) (auto simp: list_all_iff)

lemma dom_value_counts: "dom (value_counts xs) = set xs"
  by (auto simp: value_counts_def dom_def)

lemma sum_value_counts: "(\<Sum>x \<in> dom (value_counts xs). the (value_counts xs x)) = length xs"
proof -
  have "(\<Sum>x \<in> set xs. the (value_counts xs x)) = (\<Sum>x \<in> set xs. count_list xs x)"
    by (rule sum.cong) (simp_all add: value_counts_def)
  also have "\<dots> = length xs"
    by (rule sum_count_set) simp_all
  finally show ?thesis by (simp add: dom_value_counts)
qed

lemma two_values_only:
  assumes "a \<noteq> b" and "count_list xs a + count_list xs b = length xs"
  shows "set xs \<subseteq> {a, b}"
proof
  fix x assume x: "x \<in> set xs"
  show "x \<in> {a, b}"
  proof (rule ccontr)
    assume "x \<notin> {a, b}"
    then have d: "x \<noteq> a" "x \<noteq> b" by auto
    have "sum (count_list xs) {a, b, x} \<le> sum (count_list xs) (set xs \<union> {a, b, x})"
      by (rule sum_mono2) auto
    also have "\<dots> = length xs"
      by (rule sum_count_set) auto
    finally have "count_list xs a + count_list xs b + count_list xs x \<le> length xs"
      using d assms(1) by simp
    moreover have "0 < count_list xs x"
      using x count_list_0_iff [of xs x] by auto
    ultimately show False using assms(2) by simp
  qed
qed

lemma value_counts_two:
  assumes "a \<noteq> b" and "count_list xs a = m" and "count_list xs b = n" and "m + n = length xs"
    and "0 < m" and "0 < n"
  shows "value_counts xs = [a \<mapsto> m, b \<mapsto> n]"
proof
  fix x
  have sub: "set xs \<subseteq> {a, b}"
    using assms by (intro two_values_only) simp_all
  have "a \<in> set xs" "b \<in> set xs"
    using assms(2,3,5,6) count_list_0_iff [of xs a] count_list_0_iff [of xs b] by auto
  with sub assms show "value_counts xs x = [a \<mapsto> m, b \<mapsto> n] x"
    by (auto simp: value_counts_def)
qed

lemma count_list_map_tool:
  "count_list (map f xs) a = length (filter (\<lambda>e. f e = a) xs)"
  by (induction xs) auto

lemma get_analytics_summary_parsed:
  assumes "plain_username username"
    and "load_history files (username @ ''.json'') = h" and "length h = 8" and "ta \<noteq> tb"
    and "length (filter (\<lambda>e. tool e = ta) h) = 5" and "length (filter (\<lambda>e. tool e = tb) h) = 3"
    and "card (set (map (\<lambda>e. date_of (timestamp e)) h)) = 2"
    and "to_datetime (map timestamp h) = Inr (map timestamp h)"
  shows "\<exists>a. fst (get_analytics files username now1 now2) = Returned (Some a) \<and>
       total_queries a = 8 \<and>
       tools_used a = [ta \<mapsto> 5, tb \<mapsto> 3] \<and>
       card (dom (queries_by_date a)) = 2 \<and>
       (\<Sum>d \<in> dom (queries_by_date a). the (queries_by_date a d)) = 8"
proof -
  have read: "fst (get_history files username 1000) = Returned h"
    using assms(2,3) by (simp add: get_history_positive [OF assms(1)])
  from assms(3) have ne: "h \<noteq> []" by auto
  let ?stamps = "map timestamp h"
  let ?a = "\<lparr>total_queries = length h,
             tools_used = value_counts (map tool h),
             queries_by_date = value_counts (map date_of ?stamps),
             last_7_days = length (filter (\<lambda>t. t > now1 - timedelta_days 7) ?stamps),
             last_30_days = length (filter (\<lambda>t. t > now2 - timedelta_days 30) ?stamps)\<rparr>"
  have res: "fst (get_analytics files username now1 now2) = Returned (Some ?a)"
    using ne by (simp add: fst_get_analytics read assms(8))
  have tools: "value_counts (map tool h) = [ta \<mapsto> 5, tb \<mapsto> 3]"
    using assms(3-6) by (intro value_counts_two) (simp_all add: count_list_map_tool)
  have dates: "card (dom (value_counts (map date_of ?stamps))) = 2"
    using assms(7) by (simp add: dom_value_counts comp_def)
  have total: "(\<Sum>d \<in> dom (value_counts (map date_of ?stamps)).
                  the (value_counts (map date_of ?stamps) d)) = 8"
    using assms(3) by (simp only: sum_value_counts length_map)
  show ?thesis
  proof (intro exI conjI)
    show "fst (get_analytics files username now1 now2) = Returned (Some ?a)" by (rule res)
    show "total_queries ?a = 8" using assms(3) by simp
    show "tools_used ?a = [ta \<mapsto> 5, tb \<mapsto> 3]" using tools by simp
    show "card (dom (queries_by_date ?a)) = 2" using dates by simp
    show "(\<Sum>d \<in> dom (queries_by_date ?a). the (queries_by_date ?a d)) = 8"
      using total by simp
  qed
qed

lemma get_analytics_summary_example:
  "\<exists>a. fst (get_analytics
       [''alice.json'' \<mapsto>
          map (new_entry ''sentiment'' (ascii ''text'') (ascii ''POSITIVE'')) [1, 2, 3, 4, 5] @
          map (new_entry ''summarization'' (ascii ''text'') (ascii ''summary''))
            [86400000001, 86400000002, 86400000003]]
       ''alice'' 86400000004 86400000005) = Returned (Some a) \<and>
     total_queries a = 8 \<and>
     tools_used a = [''sentiment'' \<mapsto> 5, ''summarization'' \<mapsto> 3] \<and>
     card (dom (queries_by_date a)) = 2 \<and>
     (\<Sum>d \<in> dom (queries_by_date a). the (queries_by_date a d)) = 8"
proof -
  let ?h = "map (new_entry ''sentiment'' (ascii ''text'') (ascii ''POSITIVE'')) [1, 2, 3, 4, 5] @
           map (new_entry ''summarization'' (ascii ''text'') (ascii ''summary''))
             [86400000001, 86400000002, 86400000003]"
  have h1: "plain_username ''alice''"
    by (simp add: plain_username_def NAME_MAX_def)
  have h2: "load_history [''alice.json'' \<mapsto> ?h] (''alice'' @ ''.json'') = ?h"
    by (simp add: load_history_def)
  have h3: "length ?h = 8"
    by simp
  have h4: "''sentiment'' \<noteq> ''summarization''"
    by simp
  have h5: "length (filter (\<lambda>e. tool e = ''sentiment'') ?h) = 5"
    by (simp add: new_entry_def)
  have h6: "length (filter (\<lambda>e. tool e = ''summarization'') ?h) = 3"
    by (simp add: new_entry_def)
  have h7: "card (set (map (\<lambda>e. date_of (timestamp e)) ?h)) = 2"
    by (simp add: new_entry_def date_of_def)
  have h8: "to_datetime (map timestamp ?h) = Inr (map timestamp ?h)"
    by (rule to_datetime_uniform) (simp add: new_entry_def has_fraction_def)
  show ?thesis
    by (rule get_analytics_summary_parsed [OF h1 h2 h3 h4 h5 h6 h7 h8])
qed

text \<open>
  Claim C6. \<^verbatim>\<open>get_analytics\<close> returns \<^verbatim>\<open>None\<close> exactly when the read of the user's history
  returns the empty list (\<open>get_analytics_None_iff\<close>), and for eight entries, five of one
  tool and three of another on two calendar days, whose timestamps \<^verbatim>\<open>pd.to_datetime\<close>
  parses, it returns the summary with total 8, the two tool counts and two dates whose
  counts add up to 8 (\<open>get_analytics_summary_parsed\<close>). It does not do so for every such
  history: when one entry was written on a whole second and another was not,
  \<^verbatim>\<open>isoformat\<close> has written two formats and \<^verbatim>\<open>pd.to_datetime\<close> raises \<^verbatim>\<open>ValueError\<close>. The
  history below has five entries of one tool and three of another on two days, the first
  timestamp on a whole second; the read returns all eight and \<^verbatim>\<open>get_analytics\<close> raises.
\<close>

theorem get_analytics_mixed_timestamps:
  "let h = map (new_entry ''sentiment'' (ascii ''text'') (ascii ''POSITIVE'')) [0, 1, 2, 3, 4] @
           map (new_entry ''summarization'' (ascii ''text'') (ascii ''summary''))
             [86400000001, 86400000002, 86400000003]
   in length h = 8 \<and>
      length (filter (\<lambda>e. tool e = ''sentiment'') h) = 5 \<and>
      length (filter (\<lambda>e. tool e = ''summarization'') h) = 3 \<and>
      card (set (map (\<lambda>e. date_of (timestamp e)) h)) = 2 \<and>
      fst (get_history [''alice.json'' \<mapsto> h] ''alice'' 1000) = Returned h \<and>
      fst (get_analytics [''alice.json'' \<mapsto> h] ''alice'' 86400000004 86400000005) =
        Raised ValueError"
  unfolding Let_def
proof (intro conjI)
  let ?h = "map (new_entry ''sentiment'' (ascii ''text'') (ascii ''POSITIVE'')) [0, 1, 2, 3, 4] @
           map (new_entry ''summarization'' (ascii ''text'') (ascii ''summary''))
             [86400000001, 86400000002, 86400000003]"
  have plain: "plain_username ''alice''"
    by (simp add: plain_username_def NAME_MAX_def)
  show "length ?h = 8" by simp
  show "length (filter (\<lambda>e. tool e = ''sentiment'') ?h) = 5"
    by (simp add: new_entry_def)
  show "length (filter (\<lambda>e. tool e = ''summarization'') ?h) = 3"
    by (simp add: new_entry_def)
  show "card (set (map (\<lambda>e. date_of (timestamp e)) ?h)) = 2"
    by (simp add: new_entry_def date_of_def)
  show read: "fst (get_history [''alice.json'' \<mapsto> ?h] ''alice'' 1000) = Returned ?h"
    by (simp add: get_history_positive [OF plain] load_history_def)
  have "to_datetime (map timestamp ?h) = Inl ValueError"
    by (simp add: new_entry_def has_fraction_def)
  then show "fst (get_analytics [''alice.json'' \<mapsto> ?h] ''alice'' 86400000004 86400000005) =
        Raised ValueError"
    by (simp only: fst_get_analytics read) simp
qed

text \<open>
  Claim C7. \<^verbatim>\<open>get_history\<close> returns \<^verbatim>\<open>history[-limit:]\<close> and writes nothing
  (\<open>get_history_reads_only\<close>). For a positive limit the slice is the last \<open>limit\<close> entries in
  stored order (\<open>get_history_positive\<close>). For the limit 0 the slice \<^verbatim>\<open>history[-0:]\<close> is the
  whole list: after two \<^verbatim>\<open>add_entry\<close> calls for one user the read with limit 0 returns both
  entries, not at most 0 entries.
\<close>

theorem get_history_limit_zero:
  "add_entries Map.empty
     [(''alice'', ''sentiment_analysis'', ascii ''good'', ascii ''POSITIVE'', 1),
      (''alice'', ''text_summarization'', ascii ''long text'', ascii ''short'', 2)] =
     Returned [''alice.json'' \<mapsto>
       [new_entry ''sentiment_analysis'' (ascii ''good'') (ascii ''POSITIVE'') 1,
        new_entry ''text_summarization'' (ascii ''long text'') (ascii ''short'') 2]] \<and>
   fst (get_history
     [''alice.json'' \<mapsto>
       [new_entry ''sentiment_analysis'' (ascii ''good'') (ascii ''POSITIVE'') 1,
        new_entry ''text_summarization'' (ascii ''long text'') (ascii ''short'') 2]]
     ''alice'' 0) =
   Returned [new_entry ''sentiment_analysis'' (ascii ''good'') (ascii ''POSITIVE'') 1,
             new_entry ''text_summarization'' (ascii ''long text'') (ascii ''short'') 2]"
  by (simp add: get_history_def add_entry_def history_file_def path_parts_def path_exists_def
      dump_history_def load_history_def slice_from_def NAME_MAX_def Let_def)

subsection \<open>Facts about registration\<close>

text \<open>
  Claim C3. For a username that has no account yet, \<^verbatim>\<open>register_user\<close> succeeds; a second
  \<^verbatim>\<open>register_user\<close> for the same username, with any password, email, salt and clock
  reading, fails with the message \<^verbatim>\<open>Username already exists\<close> and leaves the
  \<^verbatim>\<open>UserManager\<close> (dictionary and file) as the first call left it; after the first
  registration \<^verbatim>\<open>authenticate_user\<close> with the original password returns \<^verbatim>\<open>True\<close>. The
  one fact used about \<^verbatim>\<open>bcrypt\<close> is that \<open>checkpw\<close> accepts the hash that \<open>hashpw\<close> has
  produced for this password and salt.
\<close>

theorem register_twice_then_authenticate:
  assumes "username \<notin> dom (users um)"
    and "checkpw passwd (hashpw passwd salt)"
  shows "fst (register_user hashpw um username passwd email salt now) =
           (True, ''Registration successful'') \<and>
         fst (register_user hashpw (snd (register_user hashpw um username passwd email salt now))
                username passwd2 email2 salt2 now2) = (False, ''Username already exists'') \<and>
         snd (register_user hashpw (snd (register_user hashpw um username passwd email salt now))
                username passwd2 email2 salt2 now2) =
           snd (register_user hashpw um username passwd email salt now) \<and>
         fst (authenticate_user checkpw (snd (register_user hashpw um username passwd email salt now))
                username passwd) = True"
  using assms
  by (simp add: register_user_def authenticate_user_def save_users_def Let_def)

theorem register_twice_then_authenticate_witness:
  "''alice'' \<notin> dom (users (UserManager None)) \<and>
   (\<lambda>p h. h = ''$2b$'' @ p) ''secret123'' ((\<lambda>p s. ''$2b$'' @ p) ''secret123'' ''salt'') \<and>
   fst (register_user (\<lambda>p s. ''$2b$'' @ p) (UserManager None) ''alice'' ''secret123'' ''a@example.org''
          ''salt'' 7) = (True, ''Registration successful'') \<and>
   fst (register_user (\<lambda>p s. ''$2b$'' @ p)
          (snd (register_user (\<lambda>p s. ''$2b$'' @ p) (UserManager None) ''alice'' ''secret123''
                  ''a@example.org'' ''salt'' 7))
          ''alice'' ''other'' ''b@example.org'' ''pepper'' 9) = (False, ''Username already exists'') \<and>
   fst (authenticate_user (\<lambda>p h. h = ''$2b$'' @ p)
          (snd (register_user (\<lambda>p s. ''$2b$'' @ p) (UserManager None) ''alice'' ''secret123''
                  ''a@example.org'' ''salt'' 7))
          ''alice'' ''secret123'') = True"
proof -
  have h1: "''alice'' \<notin> dom (users (UserManager None))"
    by (simp add: UserManager_def)
  have h2: "(\<lambda>p h. h = ''$2b$'' @ p) ''secret123'' ((\<lambda>p s. ''$2b$'' @ p) ''secret123'' ''salt'')"
    by simp
  from register_twice_then_authenticate
    [of "''alice''" "UserManager None" "\<lambda>p h. h = ''$2b$'' @ p" "''secret123''" "\<lambda>p s. ''$2b$'' @ p"
        "''salt''" "''a@example.org''" 7 "''other''" "''b@example.org''" "''pepper''" 9, OF h1 h2]
  show ?thesis using h1 h2 by simp
qed

subsection \<open>Facts about API keys\<close>

lemma hex_digit_not_s: "hex_digit n \<noteq> CHR ''s''"
proof -
  have "n mod 16 < length ''0123456789abcdef''" by simp
  then have "''0123456789abcdef'' ! (n mod 16) \<in> set ''0123456789abcdef''"
    by (rule nth_mem)
  then show ?thesis unfolding hex_digit_def by auto
qed

lemma hexdigest_not_sk: "hexdigest d \<noteq> ''sk_'' @ rest"
  by (cases d) (simp_all add: hexdigest_def hex_digit_not_s)

lemma key_hash_not_sk: "key_hash_of sha256 k \<noteq> ''sk_'' @ rest"
  unfolding key_hash_of_def by (rule hexdigest_not_sk)

lemma generate_keys_Cons:
  "generate_keys sha256 b64 akm ((u, rb, now) # calls) =
     (fst (generate_key sha256 b64 akm u rb now) #
        fst (generate_keys sha256 b64 (snd (generate_key sha256 b64 akm u rb now)) calls),
      snd (generate_keys sha256 b64 (snd (generate_key sha256 b64 akm u rb now)) calls))"
  by (simp add: Let_def split_beta)

lemma generate_keys_prefix:
  "k \<in> set (fst (generate_keys sha256 b64 akm calls)) \<Longrightarrow> \<exists>rest. k = ''sk_'' @ rest"
proof (induction calls arbitrary: akm)
  case Nil
  then show ?case by simp
next
  case (Cons c calls)
  obtain u rb now where c: "c = (u, rb, now)" by (cases c)
  from Cons.prems have "k = fst (generate_key sha256 b64 akm u rb now) \<or>
      k \<in> set (fst (generate_keys sha256 b64 (snd (generate_key sha256 b64 akm u rb now)) calls))"
    by (simp add: c generate_keys_Cons del: generate_keys.simps)
  then show ?case
  proof
    assume "k = fst (generate_key sha256 b64 akm u rb now)"
    then show ?thesis by (simp add: generate_key_def Let_def)
  next
    assume "k \<in> set (fst (generate_keys sha256 b64 (snd (generate_key sha256 b64 akm u rb now)) calls))"
    then show ?thesis by (rule Cons.IH)
  qed
qed

lemma dom_keys_generate_key:
  "dom (keys (snd (generate_key sha256 b64 akm u rb now))) =
     insert (key_hash_of sha256 (fst (generate_key sha256 b64 akm u rb now))) (dom (keys akm))"
  by (simp add: generate_key_def save_keys_def Let_def)

lemma dom_keys_generate_keys:
  "dom (keys (snd (generate_keys sha256 b64 akm calls))) =
     dom (keys akm) \<union> key_hash_of sha256 ` set (fst (generate_keys sha256 b64 akm calls))"
proof (induction calls arbitrary: akm)
  case Nil
  then show ?case by simp
next
  case (Cons c calls)
  obtain u rb now where c: "c = (u, rb, now)" by (cases c)
  show ?case
    unfolding c generate_keys_Cons
    by (simp add: Cons.IH dom_keys_generate_key del: generate_keys.simps)
qed

lemma get_user_by_key_None:
  "fst (get_user_by_key sha256 akm k) = None \<longleftrightarrow> key_hash_of sha256 k \<notin> dom (keys akm)"
  by (auto simp: get_user_by_key_def Let_def split: option.splits)


lemma get_user_by_key_generate_key:
  "fst (get_user_by_key sha256 (snd (generate_key sha256 b64 akm username rb now))
          (fst (generate_key sha256 b64 akm username rb now))) = Some username"
  by (simp add: get_user_by_key_def generate_key_def save_keys_def Let_def)

lemma never_issued_None:
  assumes "keys akm = Map.empty"
    and "k \<notin> set (fst (generate_keys sha256 b64 akm calls))"
    and "inj_on (key_hash_of sha256) (insert k (set (fst (generate_keys sha256 b64 akm calls))))"
  shows "fst (get_user_by_key sha256 (snd (generate_keys sha256 b64 akm calls)) k) = None"
proof -
  have "key_hash_of sha256 k \<notin> key_hash_of sha256 ` set (fst (generate_keys sha256 b64 akm calls))"
  proof
    assume "key_hash_of sha256 k \<in> key_hash_of sha256 ` set (fst (generate_keys sha256 b64 akm calls))"
    then obtain k' where k': "k' \<in> set (fst (generate_keys sha256 b64 akm calls))"
      and eq: "key_hash_of sha256 k = key_hash_of sha256 k'" by auto
    from assms(3) eq k' have "k = k'" by (auto dest: inj_onD)
    with k' assms(2) show False by simp
  qed
  then show ?thesis
    by (simp add: get_user_by_key_None dom_keys_generate_keys assms(1))
qed

text \<open>
  Claim C5. The raw key returned by \<^verbatim>\<open>generate_key\<close>, looked up at once with
  \<^verbatim>\<open>get_user_by_key\<close>, resolves to the username it was issued for, in every state of the
  key store. In a key store that was empty and then filled by \<^verbatim>\<open>generate_key\<close> calls only, a
  key that was never issued resolves to \<^verbatim>\<open>None\<close>, and so does the stored hash of an issued
  key when it is presented as a raw key, as long as the digest does not map the presented
  key and an issued key to the same hash (no collision among these keys).
\<close>

theorem issued_key_resolves_to_owner:
  "fst (get_user_by_key sha256 (snd (generate_key sha256 b64encode akm username random_bytes now))
          (fst (generate_key sha256 b64encode akm username random_bytes now))) = Some username \<and>
   (keys akm0 = Map.empty \<and>
    k \<notin> set (fst (generate_keys sha256 b64encode akm0 calls)) \<and>
    inj_on (key_hash_of sha256) (insert k (set (fst (generate_keys sha256 b64encode akm0 calls)))) \<longrightarrow>
    fst (get_user_by_key sha256 (snd (generate_keys sha256 b64encode akm0 calls)) k) = None) \<and>
   (keys akm0 = Map.empty \<and>
    k0 \<in> set (fst (generate_keys sha256 b64encode akm0 calls)) \<and>
    inj_on (key_hash_of sha256)
      (insert (key_hash_of sha256 k0) (set (fst (generate_keys sha256 b64encode akm0 calls)))) \<longrightarrow>
    fst (get_user_by_key sha256 (snd (generate_keys sha256 b64encode akm0 calls))
          (key_hash_of sha256 k0)) = None)"
proof (intro conjI impI)
  show "fst (get_user_by_key sha256 (snd (generate_key sha256 b64encode akm username random_bytes now))
          (fst (generate_key sha256 b64encode akm username random_bytes now))) = Some username"
    by (rule get_user_by_key_generate_key)
next
  assume "keys akm0 = Map.empty \<and>
    k \<notin> set (fst (generate_keys sha256 b64encode akm0 calls)) \<and>
    inj_on (key_hash_of sha256) (insert k (set (fst (generate_keys sha256 b64encode akm0 calls))))"
  then show "fst (get_user_by_key sha256 (snd (generate_keys sha256 b64encode akm0 calls)) k) = None"
    using never_issued_None [of akm0 k sha256 b64encode calls] by blast
next
  assume a: "keys akm0 = Map.empty \<and>
    k0 \<in> set (fst (generate_keys sha256 b64encode akm0 calls)) \<and>
    inj_on (key_hash_of sha256)
      (insert (key_hash_of sha256 k0) (set (fst (generate_keys sha256 b64encode akm0 calls))))"
  have "key_hash_of sha256 k0 \<notin> set (fst (generate_keys sha256 b64encode akm0 calls))"
    using generate_keys_prefix [of "key_hash_of sha256 k0" sha256 b64encode akm0 calls]
      key_hash_not_sk [of sha256 k0] by blast
  with a show "fst (get_user_by_key sha256 (snd (generate_keys sha256 b64encode akm0 calls))
          (key_hash_of sha256 k0)) = None"
    using never_issued_None [of akm0 "key_hash_of sha256 k0" sha256 b64encode calls] by blast
qed

theorem issued_key_resolves_to_owner_witness:
  "fst (generate_keys (\<lambda>k. k) (\<lambda>b. b) (APIKeyManager None) [(''alice'', ''ab'', 1)]) = [''sk_ab''] \<and>
   keys (APIKeyManager None) = Map.empty \<and>
   ''sk_zz'' \<notin> set (fst (generate_keys (\<lambda>k. k) (\<lambda>b. b) (APIKeyManager None) [(''alice'', ''ab'', 1)])) \<and>
   inj_on (key_hash_of (\<lambda>k. k))
     (insert ''sk_zz'' (set (fst (generate_keys (\<lambda>k. k) (\<lambda>b. b) (APIKeyManager None) [(''alice'', ''ab'', 1)])))) \<and>
   fst (get_user_by_key (\<lambda>k. k)
          (snd (generate_key (\<lambda>k. k) (\<lambda>b. b) (APIKeyManager None) ''alice'' ''ab'' 1))
          (fst (generate_key (\<lambda>k. k) (\<lambda>b. b) (APIKeyManager None) ''alice'' ''ab'' 1))) = Some ''alice'' \<and>
   fst (get_user_by_key (\<lambda>k. k)
          (snd (generate_keys (\<lambda>k. k) (\<lambda>b. b) (APIKeyManager None) [(''alice'', ''ab'', 1)]))
          ''sk_zz'') = None \<and>
   fst (get_user_by_key (\<lambda>k. k)
          (snd (generate_keys (\<lambda>k. k) (\<lambda>b. b) (APIKeyManager None) [(''alice'', ''ab'', 1)]))
          (key_hash_of (\<lambda>k. k) ''sk_ab'')) = None"
proof -
  let ?sha = "\<lambda>k::string. k"
  let ?b64 = "\<lambda>b::string. b"
  let ?run = "generate_keys ?sha ?b64 (APIKeyManager None) [(''alice'', ''ab'', 1)]"
  have issued: "fst ?run = [''sk_ab'']"
    by (simp add: generate_key_def Let_def)
  have h1: "keys (APIKeyManager None) = Map.empty"
    by (simp add: APIKeyManager_def)
  have h2: "''sk_zz'' \<notin> set (fst ?run)"
    unfolding issued by simp
  have h3: "inj_on (key_hash_of ?sha) (insert ''sk_zz'' (set (fst ?run)))"
    unfolding issued by (simp add: key_hash_of_def hexdigest_def hex_digit_def)
  have h4: "''sk_ab'' \<in> set (fst ?run)"
    unfolding issued by simp
  have h5: "inj_on (key_hash_of ?sha) (insert (key_hash_of ?sha ''sk_ab'') (set (fst ?run)))"
    unfolding issued by (simp add: key_hash_of_def hexdigest_def hex_digit_def)
  note inst = issued_key_resolves_to_owner
    [of ?sha ?b64 "APIKeyManager None" "''alice''" "''ab''" 1 "APIKeyManager None" "''sk_zz''"
        "[(''alice'', ''ab'', 1)]" "''sk_ab''"]
  note c1 = conjunct1 [OF inst]
  note c2 = mp [OF conjunct1 [OF conjunct2 [OF inst]] conjI [OF h1 conjI [OF h2 h3]]]
  note c3 = mp [OF conjunct2 [OF conjunct2 [OF inst]] conjI [OF h1 conjI [OF h4 h5]]]
  show ?thesis
    by (rule conjI [OF issued conjI [OF h1 conjI [OF h2 conjI [OF h3 conjI [OF c1 conjI [OF c2 c3]]]]]])
qed

text \<open>
  Claim C8. \<^verbatim>\<open>validate_key\<close> and \<^verbatim>\<open>get_user_by_key\<close> return the \<^verbatim>\<open>APIKeyManager\<close> as they
  found it, its dictionary and its file; the object is all they have access to, so the
  account, rate-limit and history files are out of their reach. A second identical call
  returns the same result as the first, and \<^verbatim>\<open>validate_key\<close> is true exactly when
  \<^verbatim>\<open>get_user_by_key\<close> finds a username.
\<close>

theorem validate_key_reads_only:
  "snd (validate_key sha256 akm api_key) = akm \<and>
   snd (get_user_by_key sha256 akm api_key) = akm \<and>
   fst (validate_key sha256 (snd (validate_key sha256 akm api_key)) api_key) =
     fst (validate_key sha256 akm api_key) \<and>
   fst (get_user_by_key sha256 (snd (get_user_by_key sha256 akm api_key)) api_key) =
     fst (get_user_by_key sha256 akm api_key) \<and>
   (fst (validate_key sha256 akm api_key) \<longleftrightarrow> fst (get_user_by_key sha256 akm api_key) \<noteq> None)"
  by (auto simp: validate_key_def get_user_by_key_def Let_def split: option.splits)

subsection \<open>Facts about the rate limiter\<close>

lemma tier_limit_table:
  "tier_limit tier = (if tier = ''guest'' then 10 else if tier = ''user'' then 100
                      else if tier = ''pro'' then 1000 else 10)"
  by (simp add: tier_limit_def RATE_LIMITS_def)

lemma window_RateLimiter:
  "window (RateLimiter file) u =
     (case file of None \<Rightarrow> [] | Some m \<Rightarrow> (case m u of None \<Rightarrow> [] | Some w \<Rightarrow> w))"
  by (simp add: window_def RateLimiter_def split: option.splits)

lemma window_check_limit:
  "window (snd (check_limit rl u tier now)) u =
     (let pruned = filter (\<lambda>ts. now - timedelta_hours 1 < ts) (window rl u)
      in if tier_limit tier \<le> int (length pruned) then pruned else pruned @ [now])"
  by (simp add: check_limit_def window_def save_limits_def Let_def)

lemma window_check_limit_other:
  "u' \<noteq> u \<Longrightarrow> window (snd (check_limit rl u tier now)) u' = window rl u'"
  by (simp add: check_limit_def window_def save_limits_def Let_def)

lemma fst_check_limit:
  "fst (check_limit rl u tier now) =
     (let pruned = filter (\<lambda>ts. now - timedelta_hours 1 < ts) (window rl u); limit = tier_limit tier
      in if limit \<le> int (length pruned) then (False, exceeded_msg limit)
         else (True, remaining_msg (limit - (int (length pruned) + 1)) limit))"
  by (simp add: check_limit_def Let_def add.commute)

lemma check_limits_append:
  "check_limits rl (xs @ ys) =
     (fst (check_limits rl xs) @ fst (check_limits (snd (check_limits rl xs)) ys),
      snd (check_limits (snd (check_limits rl xs)) ys))"
  by (induction xs arbitrary: rl) (auto simp: Let_def split: prod.splits)

lemma check_limits_Cons:
  "check_limits rl ((u, tier, now) # calls) =
     (fst (check_limit rl u tier now) # fst (check_limits (snd (check_limit rl u tier now)) calls),
      snd (check_limits (snd (check_limit rl u tier now)) calls))"
  by (simp add: Let_def split: prod.splits)

lemma check_limit_length:
  assumes "int (length (window rl u)) \<le> tier_limit tier"
  shows "int (length (window (snd (check_limit rl u tier now)) u)) \<le> tier_limit tier"
proof -
  define pruned where "pruned = filter (\<lambda>ts. now - timedelta_hours 1 < ts) (window rl u)"
  have "length pruned \<le> length (window rl u)"
    unfolding pruned_def by (rule length_filter_le)
  with assms have le: "int (length pruned) \<le> tier_limit tier" by linarith
  have w: "window (snd (check_limit rl u tier now)) u =
             (if tier_limit tier \<le> int (length pruned) then pruned else pruned @ [now])"
    by (simp add: window_check_limit pruned_def)
  show ?thesis
  proof (cases "tier_limit tier \<le> int (length pruned)")
    case True
    with w le show ?thesis by simp
  next
    case False
    with w show ?thesis by simp
  qed
qed

lemma check_limits_length:
  "\<forall>(u', tier', now) \<in> set calls. u' = u \<longrightarrow> tier' = tier \<Longrightarrow>
   int (length (window rl u)) \<le> tier_limit tier \<Longrightarrow>
   int (length (window (snd (check_limits rl calls)) u)) \<le> tier_limit tier"
proof (induction calls arbitrary: rl)
  case Nil
  then show ?case by simp
next
  case (Cons c calls)
  obtain u' tier' now where c: "c = (u', tier', now)" by (cases c)
  have inv: "int (length (window (snd (check_limit rl u' tier' now)) u)) \<le> tier_limit tier"
  proof (cases "u' = u")
    case True
    with Cons.prems c have "tier' = tier" by simp
    with True Cons.prems(2) show ?thesis by (simp add: check_limit_length)
  next
    case False
    with Cons.prems(2) show ?thesis by (simp add: window_check_limit_other)
  qed
  from Cons.prems(1) have "\<forall>(u', tier', now) \<in> set calls. u' = u \<longrightarrow> tier' = tier" by simp
  from Cons.IH [OF this inv] show ?case by (simp add: c Let_def split_beta)
qed

lemma guest_msgs:
  "map (\<lambda>i. (True, remaining_msg (10 - (int i + 1)) 10)) [0..<10] =
     [(True, ''Remaining: 9/10''), (True, ''Remaining: 8/10''), (True, ''Remaining: 7/10''),
      (True, ''Remaining: 6/10''), (True, ''Remaining: 5/10''), (True, ''Remaining: 4/10''),
      (True, ''Remaining: 3/10''), (True, ''Remaining: 2/10''), (True, ''Remaining: 1/10''),
      (True, ''Remaining: 0/10'')]"
  by code_simp

lemma check_limits_admitted:
  assumes "\<forall>a \<in> set (window rl u) \<union> set ts. \<forall>b \<in> set ts. b - timedelta_hours 1 < a"
    and "int (length (window rl u) + length ts) \<le> tier_limit tier"
  shows "fst (check_limits rl (map (\<lambda>t. (u, tier, t)) ts)) =
           map (\<lambda>i. (True, remaining_msg (tier_limit tier - (int (length (window rl u) + i) + 1))
                              (tier_limit tier))) [0..<length ts] \<and>
         window (snd (check_limits rl (map (\<lambda>t. (u, tier, t)) ts))) u = window rl u @ ts"
  using assms
proof (induction ts arbitrary: rl)
  case Nil
  then show ?case by simp
next
  case (Cons t ts)
  let ?rl1 = "snd (check_limit rl u tier t)"
  have keep: "filter (\<lambda>x. t - timedelta_hours 1 < x) (window rl u) = window rl u"
    using Cons.prems(1) by (auto intro: filter_True)
  have lt: "\<not> tier_limit tier \<le> int (length (window rl u))"
    using Cons.prems(2) by simp
  have w1: "window ?rl1 u = window rl u @ [t]"
    using lt by (simp add: window_check_limit keep Let_def)
  have r1: "fst (check_limit rl u tier t) =
              (True, remaining_msg (tier_limit tier - (int (length (window rl u)) + 1)) (tier_limit tier))"
    using lt by (simp add: fst_check_limit keep Let_def)
  have p1: "\<forall>a \<in> set (window ?rl1 u) \<union> set ts. \<forall>b \<in> set ts. b - timedelta_hours 1 < a"
    using Cons.prems(1) by (auto simp: w1)
  have p2: "int (length (window ?rl1 u) + length ts) \<le> tier_limit tier"
    using Cons.prems(2) by (simp add: w1)
  note IH = Cons.IH [OF p1 p2]
  have shift: "map (\<lambda>i. (True, remaining_msg (tier_limit tier - (int (length (window rl u) + i) + 1))
                              (tier_limit tier))) [0..<length (t # ts)] =
        (True, remaining_msg (tier_limit tier - (int (length (window rl u)) + 1)) (tier_limit tier)) #
        map (\<lambda>i. (True, remaining_msg (tier_limit tier - (int (length (window ?rl1 u) + i) + 1))
                              (tier_limit tier))) [0..<length ts]"
    by (simp add: w1 upt_conv_Cons map_Suc_upt [symmetric] del: upt_Suc)
  have fstC: "fst (check_limits rl (map (\<lambda>t. (u, tier, t)) (t # ts))) =
               fst (check_limit rl u tier t) # fst (check_limits ?rl1 (map (\<lambda>t. (u, tier, t)) ts))"
    by (simp add: Let_def split_beta)
  have sndC: "snd (check_limits rl (map (\<lambda>t. (u, tier, t)) (t # ts))) =
               snd (check_limits ?rl1 (map (\<lambda>t. (u, tier, t)) ts))"
    by (simp add: Let_def split_beta)
  from IH have "fst (check_limit rl u tier t) # fst (check_limits ?rl1 (map (\<lambda>t. (u, tier, t)) ts)) =
        (True, remaining_msg (tier_limit tier - (int (length (window rl u)) + 1)) (tier_limit tier)) #
        map (\<lambda>i. (True, remaining_msg (tier_limit tier - (int (length (window ?rl1 u) + i) + 1))
                              (tier_limit tier))) [0..<length ts]"
    by (simp only: r1)
  moreover from IH have "window (snd (check_limits ?rl1 (map (\<lambda>t. (u, tier, t)) ts))) u =
        window rl u @ t # ts"
    by (simp add: w1)
  ultimately show ?case
    by (simp only: fstC sndC shift simp_thms)
qed

text \<open>
  Claim C1. A user of tier \<^verbatim>\<open>guest\<close> (limit 10) starts with an empty rate window. Ten
  admission checks whose clock readings lie within one second of each other are all admitted
  and report the remaining quota 9, 8, ..., 0. An eleventh check, made while all ten
  timestamps are less than an hour old, is rejected with the message that carries the
  limit 10. A further check made more than one hour after the first request's timestamp is
  admitted again.
\<close>

theorem guest_ten_admitted_then_limited:
  assumes "window rl username = []"
    and "length ts = 10"
    and "\<forall>a \<in> set ts. \<forall>b \<in> set ts. b - a < 1000000"
    and "\<forall>a \<in> set ts. t11 - a < timedelta_hours 1"
    and "hd ts + timedelta_hours 1 < t12"
  shows "\<exists>msg. fst (check_limits rl (map (\<lambda>t. (username, ''guest'', t)) (ts @ [t11, t12]))) =
     [(True, ''Remaining: 9/10''), (True, ''Remaining: 8/10''), (True, ''Remaining: 7/10''),
      (True, ''Remaining: 6/10''), (True, ''Remaining: 5/10''), (True, ''Remaining: 4/10''),
      (True, ''Remaining: 3/10''), (True, ''Remaining: 2/10''), (True, ''Remaining: 1/10''),
      (True, ''Remaining: 0/10''), (False, ''Rate limit exceeded. Limit: 10/hour''), (True, msg)]"
proof -
  let ?call = "\<lambda>t. (username, ''guest'', t)"
  let ?rl10 = "snd (check_limits rl (map ?call ts))"
  let ?rl11 = "snd (check_limit ?rl10 username ''guest'' t11)"
  have guest: "tier_limit ''guest'' = 10"
    by (simp add: tier_limit_table)
  have h1: "\<forall>a \<in> set (window rl username) \<union> set ts. \<forall>b \<in> set ts. b - timedelta_hours 1 < a"
    using assms(1,3) by (fastforce simp: timedelta_hours_def)
  have h2: "int (length (window rl username) + length ts) \<le> tier_limit ''guest''"
    using assms(1,2) by (simp add: guest)
  note ten = check_limits_admitted [OF h1 h2]
  have first10: "fst (check_limits rl (map ?call ts)) =
      map (\<lambda>i. (True, remaining_msg (10 - (int i + 1)) 10)) [0..<10]"
    using ten by (simp add: guest assms(1,2))
  have w10: "window ?rl10 username = ts"
    using ten by (simp add: assms(1))
  have "\<forall>x \<in> set ts. t11 - timedelta_hours 1 < x"
    using assms(4) by auto
  then have keep11: "filter (\<lambda>x. t11 - timedelta_hours 1 < x) ts = ts"
    by (rule filter_True)
  have r11: "fst (check_limit ?rl10 username ''guest'' t11) = (False, exceeded_msg 10)"
    by (simp add: fst_check_limit w10 keep11 guest assms(2) Let_def)
  have w11: "window ?rl11 username = ts"
    by (simp add: window_check_limit w10 keep11 guest assms(2) Let_def)
  have "ts \<noteq> []" using assms(2) by auto
  then have "hd ts \<in> set ts" by simp
  moreover have "\<not> t12 - timedelta_hours 1 < hd ts" using assms(5) by simp
  ultimately have "length (filter (\<lambda>x. t12 - timedelta_hours 1 < x) ts) < length ts"
    by (rule length_filter_less)
  then have lt12: "\<not> tier_limit ''guest'' \<le> int (length (filter (\<lambda>x. t12 - timedelta_hours 1 < x) ts))"
    by (simp add: guest assms(2))
  have r12: "fst (fst (check_limit ?rl11 username ''guest'' t12))"
    using lt12 by (simp add: fst_check_limit w11 Let_def)
  have tail: "fst (check_limits ?rl10 (map ?call [t11, t12])) =
      [(False, exceeded_msg 10), fst (check_limit ?rl11 username ''guest'' t12)]"
    by (simp add: Let_def split_beta r11)
  have ex: "exceeded_msg 10 = ''Rate limit exceeded. Limit: 10/hour''"
    by code_simp
  have "fst (check_limits rl (map ?call (ts @ [t11, t12]))) =
      map (\<lambda>i. (True, remaining_msg (10 - (int i + 1)) 10)) [0..<10] @
      [(False, ''Rate limit exceeded. Limit: 10/hour''),
       (True, snd (fst (check_limit ?rl11 username ''guest'' t12)))]"
    using r12 by (simp only: map_append check_limits_append fst_conv first10 tail ex)
      (simp add: prod_eq_iff)
  then show ?thesis
    by (simp only: guest_msgs append_Cons append_Nil) blast
qed

theorem guest_ten_admitted_then_limited_witness:
  "window (RateLimiter None) ''alice'' = [] \<and>
   length [0, 1, 2, 3, 4, 5, 6, 7, 8, 9 :: int] = 10 \<and>
   hd [0, 1, 2, 3, 4, 5, 6, 7, 8, 9 :: int] + timedelta_hours 1 < 3600000002 \<and>
   (\<exists>msg. fst (check_limits (RateLimiter None)
      (map (\<lambda>t. (''alice'', ''guest'', t)) ([0, 1, 2, 3, 4, 5, 6, 7, 8, 9] @ [3599999999, 3600000002]))) =
     [(True, ''Remaining: 9/10''), (True, ''Remaining: 8/10''), (True, ''Remaining: 7/10''),
      (True, ''Remaining: 6/10''), (True, ''Remaining: 5/10''), (True, ''Remaining: 4/10''),
      (True, ''Remaining: 3/10''), (True, ''Remaining: 2/10''), (True, ''Remaining: 1/10''),
      (True, ''Remaining: 0/10''), (False, ''Rate limit exceeded. Limit: 10/hour''), (True, msg)])"
proof -
  have a1: "window (RateLimiter None) ''alice'' = []"
    by (simp add: window_RateLimiter)
  have a2: "length [0, 1, 2, 3, 4, 5, 6, 7, 8, 9 :: int] = 10"
    by simp
  have a3: "\<forall>a \<in> set [0, 1, 2, 3, 4, 5, 6, 7, 8, 9 :: int].
      \<forall>b \<in> set [0, 1, 2, 3, 4, 5, 6, 7, 8, 9 :: int]. b - a < 1000000"
    by simp
  have a4: "\<forall>a \<in> set [0, 1, 2, 3, 4, 5, 6, 7, 8, 9 :: int]. 3599999999 - a < timedelta_hours 1"
    by (simp add: timedelta_hours_def)
  have a5: "hd [0, 1, 2, 3, 4, 5, 6, 7, 8, 9 :: int] + timedelta_hours 1 < 3600000002"
    by (simp add: timedelta_hours_def)
  note r = guest_ten_admitted_then_limited [OF a1 a2 a3 a4 a5]
  show ?thesis by (rule conjI [OF a1 conjI [OF a2 conjI [OF a5 r]]])
qed

text \<open>
  Claim C9. After the pruning step of an admission check at time \<open>now\<close>, every timestamp
  kept in the evaluated user's in-memory window is strictly later than the cutoff
  \<open>now - 1 hour\<close>, that is, it is less than one hour old; in particular a timestamp that is
  exactly one hour old is not kept. The timestamp appended on admission is \<open>now\<close> itself
  and satisfies the same bound.
\<close>

theorem check_limit_window_within_hour:
  "(\<forall>ts \<in> set (window (snd (check_limit rl username tier now)) username).
      now - timedelta_hours 1 < ts \<and> now - ts < timedelta_hours 1) \<and>
   now - timedelta_hours 1 \<notin> set (window (snd (check_limit rl username tier now)) username)"
  by (auto simp: window_check_limit Let_def timedelta_hours_def)

theorem check_limit_window_within_hour_witness:
  "window (snd (check_limit (RateLimiter (Some [''alice'' \<mapsto> [0, 1]])) ''alice'' ''guest'' 3600000000))
     ''alice'' = [1, 3600000000] \<and>
   3600000000 - timedelta_hours 1 < 1 \<and> 3600000000 - 1 < timedelta_hours 1 \<and>
   3600000000 - timedelta_hours 1 \<notin> set [1, 3600000000 :: int]"
proof -
  have w: "window (snd (check_limit (RateLimiter (Some [''alice'' \<mapsto> [0, 1]])) ''alice'' ''guest''
             3600000000)) ''alice'' = [1, 3600000000]"
    by (simp add: window_check_limit window_RateLimiter Let_def timedelta_hours_def
        tier_limit_table)
  from check_limit_window_within_hour
         [of "RateLimiter (Some [''alice'' \<mapsto> [0, 1]])" "''alice''" "''guest''" 3600000000]
  have "3600000000 - timedelta_hours 1 < 1 \<and> 3600000000 - 1 < timedelta_hours 1 \<and>
        3600000000 - timedelta_hours 1 \<notin> set [1, 3600000000 :: int]"
    unfolding w by simp
  with w show ?thesis by (rule conjI)
qed

text \<open>
  Claim C10. Let a user be checked with one and the same tier in every call, on a
  \<^verbatim>\<open>RateLimiter\<close> object whose window for that user holds at most \<open>limit\<close> timestamps before
  the first call (an absent or empty window in particular), where \<open>limit\<close> is the tier's
  ceiling: 10 for guest, 100 for user, 1000 for pro and 10 for every other tier name. Then
  after every admission check of any call sequence (checks of other users with any tier may
  be interleaved) the user's in-memory window holds at most \<open>limit\<close> timestamps. A rejected
  check leaves exactly the pruned window: it appends nothing.
\<close>

theorem check_limits_window_bounded:
  assumes "\<forall>(u, t, now) \<in> set calls. u = username \<longrightarrow> t = tier"
    and "int (length (window rl username)) \<le> tier_limit tier"
  shows "(\<forall>n. int (length (window (snd (check_limits rl (take n calls))) username)) \<le> tier_limit tier) \<and>
         tier_limit tier = (if tier = ''guest'' then 10 else if tier = ''user'' then 100
                            else if tier = ''pro'' then 1000 else 10) \<and>
         (\<forall>now. \<not> fst (fst (check_limit rl username tier now)) \<longrightarrow>
            window (snd (check_limit rl username tier now)) username =
              filter (\<lambda>ts. now - timedelta_hours 1 < ts) (window rl username))"
proof (intro conjI allI impI)
  fix n
  have "\<forall>(u, t, now) \<in> set (take n calls). u = username \<longrightarrow> t = tier"
    using assms(1) by (auto dest: in_set_takeD)
  from check_limits_length [OF this assms(2)]
  show "int (length (window (snd (check_limits rl (take n calls))) username)) \<le> tier_limit tier" .
next
  show "tier_limit tier = (if tier = ''guest'' then 10 else if tier = ''user'' then 100
                           else if tier = ''pro'' then 1000 else 10)"
    by (rule tier_limit_table)
next
  fix now
  assume "\<not> fst (fst (check_limit rl username tier now))"
  then show "window (snd (check_limit rl username tier now)) username =
               filter (\<lambda>ts. now - timedelta_hours 1 < ts) (window rl username)"
    by (simp add: fst_check_limit window_check_limit Let_def split: if_splits)
qed

theorem check_limits_window_bounded_witness:
  "int (length (window (RateLimiter None) ''alice'')) \<le> tier_limit ''guest'' \<and>
   (\<forall>n. int (length (window (snd (check_limits (RateLimiter None)
      (take n [(''alice'', ''guest'', 0), (''bob'', ''pro'', 5), (''alice'', ''guest'', 7)]))) ''alice''))
        \<le> tier_limit ''guest'')"
proof -
  have h1: "\<forall>(u, t, now) \<in> set [(''alice'', ''guest'', 0::int), (''bob'', ''pro'', 5), (''alice'', ''guest'', 7)].
      u = ''alice'' \<longrightarrow> t = ''guest''"
    by simp
  have h2: "int (length (window (RateLimiter None) ''alice'')) \<le> tier_limit ''guest''"
    by (simp add: window_RateLimiter tier_limit_table)
  from check_limits_window_bounded [OF h1 h2]
  have a: "\<forall>n. int (length (window (snd (check_limits (RateLimiter None)
      (take n [(''alice'', ''guest'', 0), (''bob'', ''pro'', 5), (''alice'', ''guest'', 7)]))) ''alice''))
        \<le> tier_limit ''guest''"
    by (rule conjunct1)
  show ?thesis by (rule conjI [OF h2 a])
qed

end
